theory Spec2Isabelle
  imports Main
begin

section \<open>Release version parsing (\<open>.github/utils/parse_version.py\<close>)\<close>

text \<open>
  The script takes a release version such as \<open>v2.99.0-rc1\<close>, derives the release
  branch and two flags from it and prints them as \<open>key=value\<close> lines. Python strings are
  modelled as \<open>string\<close>, exceptions as the left summand of a sum type, the returned
  dictionary as an association list in insertion order (the entry point iterates over it
  in that order) and standard output as the text written so far.
\<close>

subsection \<open>Exceptions\<close>

text \<open>
  \<open>ValueError\<close> carries its message. The explicit \<open>raise\<close> of \<open>parse_version\<close> and a
  failing tuple unpacking both raise it, with different messages. \<open>IndexError\<close> is what
  indexing a list out of range raises, \<open>UnicodeEncodeError\<close> what \<open>print\<close> raises for
  a text that the encoding of standard output cannot encode.
\<close>

datatype py_error = ValueError string | IndexError | UnicodeEncodeError

subsection \<open>The string and list operations the script calls\<close>

text \<open>
  \<open>s.lstrip(chars)\<close>: drop characters from the front of \<open>s\<close> for as long as they occur
  in \<open>chars\<close>.
\<close>

fun lstrip :: "string \<Rightarrow> string \<Rightarrow> string" where
  "lstrip [] chars = []"
| "lstrip (c # cs) chars = (if c \<in> set chars then lstrip cs chars else c # cs)"

text \<open>
  \<open>s.split(sep)\<close> for a separator of one character, which is how the script calls it
  (\<open>"."\<close> and \<open>"-"\<close>). The scan runs from left to right; \<open>cur\<close> is the field read so
  far, closed at each separator and at the end of the string. The empty string splits
  into one empty field.
\<close>

fun split_from :: "string \<Rightarrow> char \<Rightarrow> string \<Rightarrow> string list" where
  "split_from [] sep cur = [cur]"
| "split_from (c # cs) sep cur =
     (if c = sep then cur # split_from cs sep [] else split_from cs sep (cur @ [c]))"

definition str_split :: "string \<Rightarrow> char \<Rightarrow> string list" where
  "str_split s sep = split_from s sep []"

text \<open>\<open>sub in s\<close> on strings: \<open>sub\<close> occurs in \<open>s\<close> at some position.\<close>

fun str_contains :: "string \<Rightarrow> string \<Rightarrow> bool" where
  "str_contains [] sub = (sub = [])"
| "str_contains (c # cs) sub = (take (length sub) (c # cs) = sub \<or> str_contains cs sub)"

text \<open>\<open>str(b)\<close> for a boolean, and \<open>s.lower()\<close> on ASCII text.\<close>

definition str_bool :: "bool \<Rightarrow> string" where
  "str_bool b = (if b then ''True'' else ''False'')"

definition chr_lower :: "char \<Rightarrow> char" where
  "chr_lower c =
     (let n = (of_char c :: nat) in if 65 \<le> n \<and> n \<le> 90 then char_of (n + 32) else c)"

definition str_lower :: "string \<Rightarrow> string" where
  "str_lower s = map chr_lower s"

text \<open>\<open>xs[i]\<close> for an index that is not negative (the script uses \<open>0\<close> and \<open>1\<close>).\<close>

definition getitem :: "'a list \<Rightarrow> nat \<Rightarrow> py_error + 'a" where
  "getitem xs i = (if i < length xs then Inr (xs ! i) else Inl IndexError)"

text \<open>
  \<open>a, b, c = xs\<close>: the unpacking raises \<open>ValueError\<close> unless the list has exactly three
  elements (the count that CPython appends to the message is left out).
\<close>

definition unpack3 :: "'a list \<Rightarrow> py_error + ('a \<times> 'a \<times> 'a)" where
  "unpack3 xs =
     (case xs of
        [a, b, c] \<Rightarrow> Inr (a, b, c)
      | _ \<Rightarrow> Inl (ValueError (if length xs < 3 then ''not enough values to unpack''
                               else ''too many values to unpack'')))"

subsection \<open>\<open>parse_version\<close>\<close>

definition format_error :: "string \<Rightarrow> py_error" where
  "format_error version_input =
     ValueError (''Invalid version format: '' @ version_input @ ''. Expected MAJOR.MINOR.PATCH'')"

definition parse_version :: "string \<Rightarrow> py_error + (string \<times> string) list" where
  "parse_version version_input =
     (let version = lstrip version_input ''v'';
          parts = str_split version (CHR ''.'')
      in if length parts \<noteq> 3 then Inl (format_error version_input)
         else
           (case unpack3 parts of
              Inl e \<Rightarrow> Inl e
            | Inr (major, minor, patch0) \<Rightarrow>
                (case getitem (str_split patch0 (CHR ''-'')) 0 of
                   Inl e \<Rightarrow> Inl e
                 | Inr patch \<Rightarrow>
                     (let release_branch = ''v'' @ major @ ''.'' @ minor @ ''.x'';
                          is_minor = (patch = ''0'');
                          is_first_rc = (is_minor \<and> str_contains version ''rc1'')
                      in Inr [(''version'', version),
                              (''major_minor'', major @ ''.'' @ minor),
                              (''release_branch'', release_branch),
                              (''is_minor'', str_lower (str_bool is_minor)),
                              (''is_first_rc'', str_lower (str_bool is_first_rc))]))))"

subsection \<open>The entry point\<close>

text \<open>
  What a run of the script leaves behind: the text written to standard output and the
  exception that ended the run, if any.
\<close>

record outcome =
  stdout :: string
  raised :: "py_error option"

text \<open>
  \<open>print(s)\<close> writes \<open>s\<close> and a newline to standard output. The write encodes \<open>s\<close> in
  the encoding of standard output and raises \<open>UnicodeEncodeError\<close>, writing nothing, when
  that encoding has no code for it (an argument that is not valid text in the locale
  reaches the script as such a string). Which texts standard output takes belongs to the
  environment: it is the parameter \<open>encodable\<close>. The newline itself is ASCII, which every
  encoding of standard output takes.
\<close>

definition print_line :: "(string \<Rightarrow> bool) \<Rightarrow> string \<Rightarrow> string \<Rightarrow> py_error + string" where
  "print_line encodable out s =
     (if encodable s then Inr (out @ s @ [CHR 0x0A]) else Inl UnicodeEncodeError)"

text \<open>
  The loop \<open>for key, value in parsed.items(): print(f"{key}={value}")\<close>, over the items
  in insertion order. An exception ends the loop; what was printed before stays printed.
\<close>

fun print_items :: "(string \<Rightarrow> bool) \<Rightarrow> (string \<times> string) list \<Rightarrow> string \<Rightarrow> outcome" where
  "print_items encodable [] out = \<lparr>stdout = out, raised = None\<rparr>"
| "print_items encodable ((key, value) # items) out =
     (case print_line encodable out (key @ ''='' @ value) of
        Inl e \<Rightarrow> \<lparr>stdout = out, raised = Some e\<rparr>
      | Inr out' \<Rightarrow> print_items encodable items out')"

text \<open>
  \<open>main\<close> reads \<open>sys.argv[1]\<close>, parses it and prints the items. A missing argument or a
  version that does not parse ends the run before anything is printed.
\<close>

definition main :: "(string \<Rightarrow> bool) \<Rightarrow> string list \<Rightarrow> outcome" where
  "main encodable argv =
     (case getitem argv 1 of
        Inl e \<Rightarrow> \<lparr>stdout = [], raised = Some e\<rparr>
      | Inr version_input \<Rightarrow>
          (case parse_version version_input of
             Inl e \<Rightarrow> \<lparr>stdout = [], raised = Some e\<rparr>
           | Inr parsed \<Rightarrow> print_items encodable parsed []))"

text \<open>
  A standard output that takes ASCII text and nothing else, the least that an encoding
  of standard output takes.
\<close>

definition ascii_only :: "string \<Rightarrow> bool" where
  "ascii_only s = list_all (\<lambda>c. (of_char c :: nat) < 128) s"

text \<open>
  The lines of a text, as whoever reads standard output sees them: the pieces between
  newlines, without the empty piece after a final newline.
\<close>

definition stdout_lines :: "string \<Rightarrow> string list" where
  "stdout_lines out =
     (let pieces = str_split out (CHR 0x0A)
      in if last pieces = [] then butlast pieces else pieces)"

section \<open>Properties\<close>

subsection \<open>Stripping\<close>

lemma lstrip_v_replicate: "\<exists>n. s = replicate n (CHR ''v'') @ lstrip s ''v''"
proof (induction s)
  case Nil
  show ?case by simp
next
  case (Cons c cs)
  show ?case
  proof (cases "c = CHR ''v''")
    case True
    from Cons obtain n where "cs = replicate n (CHR ''v'') @ lstrip cs ''v''" ..
    with True have "c # cs = replicate (Suc n) (CHR ''v'') @ lstrip (c # cs) ''v''" by simp
    then show ?thesis ..
  next
    case False
    then have "c # cs = replicate 0 (CHR ''v'') @ lstrip (c # cs) ''v''" by simp
    then show ?thesis ..
  qed
qed

lemma lstrip_v_no_v: "take 1 (lstrip s ''v'') \<noteq> ''v''"
  by (induction s) simp_all

subsection \<open>Splitting\<close>

lemma split_from_ne: "split_from s sep cur \<noteq> []" "[] \<noteq> split_from s sep cur"
  by (induction s arbitrary: cur) simp_all

lemma split_from_unfold:
  "split_from s sep cur =
     (cur @ takeWhile (\<lambda>c. c \<noteq> sep) s) #
       (case dropWhile (\<lambda>c. c \<noteq> sep) s of [] \<Rightarrow> [] | _ # rest \<Rightarrow> split_from rest sep [])"
  by (induction s arbitrary: cur) simp_all

text \<open>The first field of a split is the text before the first separator.\<close>

lemma getitem_split0: "getitem (str_split s sep) 0 = Inr (takeWhile (\<lambda>c. c \<noteq> sep) s)"
  by (subst str_split_def, subst split_from_unfold) (simp add: getitem_def)

lemma length_str_split: "length (str_split s sep) = Suc (count_list s sep)"
proof -
  have "length (split_from s sep cur) = Suc (count_list s sep)" for cur
    by (induction s arbitrary: cur) simp_all
  then show ?thesis by (simp add: str_split_def)
qed

lemma split_from_no_sep: "sep \<notin> set a \<Longrightarrow> split_from a sep cur = [cur @ a]"
  by (induction a arbitrary: cur) auto

lemma split_from_append:
  "sep \<notin> set a \<Longrightarrow> split_from (a @ sep # rest) sep cur = (cur @ a) # split_from rest sep []"
  by (induction a arbitrary: cur) auto

lemma split_from_Cons:
  "split_from s sep cur = p # ps \<Longrightarrow>
     (ps = [] \<and> p = cur @ s \<and> sep \<notin> set s) \<or>
     (\<exists>a rest. s = a @ sep # rest \<and> sep \<notin> set a \<and> p = cur @ a \<and> ps = split_from rest sep [])"
proof (induction s arbitrary: cur)
  case Nil
  then show ?case by simp
next
  case (Cons c cs)
  show ?case
  proof (cases "c = sep")
    case True
    with Cons.prems
    have "c # cs = [] @ sep # cs \<and> sep \<notin> set [] \<and> p = cur @ [] \<and> ps = split_from cs sep []"
      by simp
    then show ?thesis by blast
  next
    case False
    with Cons.prems have "split_from cs sep (cur @ [c]) = p # ps" by simp
    from Cons.IH [OF this] False show ?thesis
      by (auto simp: Cons_eq_append_conv)
  qed
qed

text \<open>
  A string splits into exactly the three fields \<open>a\<close>, \<open>b\<close>, \<open>c\<close> iff it is
  \<open>a sep b sep c\<close> and none of the three contains the separator.
\<close>

lemma str_split_three_iff:
  "(str_split s sep = [a, b, c]) =
     (s = a @ sep # b @ sep # c \<and> sep \<notin> set a \<and> sep \<notin> set b \<and> sep \<notin> set c)"
proof
  assume h: "str_split s sep = [a, b, c]"
  from split_from_Cons [OF h [unfolded str_split_def]]
  obtain r1 where 1: "s = a @ sep # r1" "sep \<notin> set a" "[b, c] = split_from r1 sep []"
    by auto
  from split_from_Cons [OF 1(3) [symmetric]] split_from_ne
  obtain r2 where 2: "r1 = b @ sep # r2" "sep \<notin> set b" "[c] = split_from r2 sep []"
    by auto
  from split_from_Cons [OF 2(3) [symmetric]] split_from_ne
  have 3: "r2 = c" "sep \<notin> set c"
    by auto
  from 1 2 3 show "s = a @ sep # b @ sep # c \<and> sep \<notin> set a \<and> sep \<notin> set b \<and> sep \<notin> set c"
    by simp
next
  assume "s = a @ sep # b @ sep # c \<and> sep \<notin> set a \<and> sep \<notin> set b \<and> sep \<notin> set c"
  then show "str_split s sep = [a, b, c]"
    by (simp add: str_split_def split_from_append split_from_no_sep)
qed

lemma length3_conv: "(length xs = 3) = (\<exists>a b c. xs = [a, b, c])"
  by (auto simp: numeral_3_eq_3 length_Suc_conv)

subsection \<open>Substrings and booleans\<close>

lemma str_contains_iff: "str_contains s sub = (\<exists>pre suf. s = pre @ sub @ suf)"
proof (induction s)
  case Nil
  show ?case by auto
next
  case (Cons c cs)
  have pre: "(take (length sub) (c # cs) = sub) = (\<exists>suf. c # cs = sub @ suf)"
    by (metis append_eq_conv_conj)
  have "(\<exists>pre suf. c # cs = pre @ sub @ suf) =
        ((\<exists>suf. c # cs = sub @ suf) \<or> (\<exists>pre suf. cs = pre @ sub @ suf))"
    by (auto simp: Cons_eq_append_conv)
  with Cons pre show ?case by simp
qed

lemma lower_bool: "str_lower (str_bool b) = (if b then ''true'' else ''false'')"
  by (cases b; simp add: str_lower_def str_bool_def chr_lower_def; code_simp)

subsection \<open>What \<open>parse_version\<close> returns\<close>

lemma parse_version_three:
  assumes "str_split (lstrip s ''v'') (CHR ''.'') = [major, minor, patch]"
  shows "parse_version s =
           Inr [(''version'', lstrip s ''v''),
                (''major_minor'', major @ ''.'' @ minor),
                (''release_branch'', ''v'' @ major @ ''.'' @ minor @ ''.x''),
                (''is_minor'',
                   if takeWhile (\<lambda>c. c \<noteq> CHR ''-'') patch = ''0'' then ''true'' else ''false''),
                (''is_first_rc'',
                   if takeWhile (\<lambda>c. c \<noteq> CHR ''-'') patch = ''0'' \<and>
                      str_contains (lstrip s ''v'') ''rc1''
                   then ''true'' else ''false'')]"
  using assms by (simp add: parse_version_def unpack3_def getitem_split0 lower_bool)

lemma parse_version_not_three:
  assumes "length (str_split (lstrip s ''v'') (CHR ''.'')) \<noteq> 3"
  shows "parse_version s = Inl (format_error s)"
  using assms by (simp add: parse_version_def)

lemma parse_version_Inr_parts:
  assumes "parse_version s = Inr r"
  obtains major minor patch
  where "str_split (lstrip s ''v'') (CHR ''.'') = [major, minor, patch]"
proof (cases "length (str_split (lstrip s ''v'') (CHR ''.'')) = 3")
  case True
  then show ?thesis using that by (auto simp: length3_conv)
next
  case False
  from parse_version_not_three [OF this] assms show ?thesis by simp
qed

subsection \<open>Lines of the output\<close>

lemma set_lstrip: "set (lstrip s chars) \<subseteq> set s"
  by (induction s) auto

lemma stdout_lines_five:
  assumes "CHR 0x0A \<notin> set a" "CHR 0x0A \<notin> set b" "CHR 0x0A \<notin> set c"
    "CHR 0x0A \<notin> set d" "CHR 0x0A \<notin> set e"
  shows "stdout_lines (a @ CHR 0x0A # b @ CHR 0x0A # c @ CHR 0x0A # d @ CHR 0x0A #
                       e @ [CHR 0x0A]) = [a, b, c, d, e]"
  using assms by (simp add: stdout_lines_def str_split_def split_from_append)

section \<open>The claims\<close>

text \<open>
  C1. \<open>parse_version\<close> fails with the format error (the \<open>ValueError\<close> whose message
  asks for \<open>MAJOR.MINOR.PATCH\<close>) if and only if the input without its leading \<open>v\<close>
  characters does not split on \<open>.\<close> into exactly three components, and it fails at all
  only then. It returns a result exactly when there are three components, and that result
  is the record of the five fields \<open>version\<close>, \<open>major_minor\<close>, \<open>release_branch\<close>,
  \<open>is_minor\<close> and \<open>is_first_rc\<close>, computed from the three components.
\<close>

theorem parse_version_fails_iff_not_three_parts:
  "((parse_version s = Inl (format_error s)) =
      (length (str_split (lstrip s ''v'') (CHR ''.'')) \<noteq> 3)) \<and>
   ((\<exists>e. parse_version s = Inl e) =
      (length (str_split (lstrip s ''v'') (CHR ''.'')) \<noteq> 3)) \<and>
   ((\<exists>r. parse_version s = Inr r) =
      (length (str_split (lstrip s ''v'') (CHR ''.'')) = 3)) \<and>
   (length (str_split (lstrip s ''v'') (CHR ''.'')) = 3 \<longrightarrow>
      (\<exists>major minor patch.
         str_split (lstrip s ''v'') (CHR ''.'') = [major, minor, patch] \<and>
         parse_version s =
           Inr [(''version'', lstrip s ''v''),
                (''major_minor'', major @ ''.'' @ minor),
                (''release_branch'', ''v'' @ major @ ''.'' @ minor @ ''.x''),
                (''is_minor'',
                   if takeWhile (\<lambda>c. c \<noteq> CHR ''-'') patch = ''0'' then ''true'' else ''false''),
                (''is_first_rc'',
                   if takeWhile (\<lambda>c. c \<noteq> CHR ''-'') patch = ''0'' \<and>
                      (\<exists>pre suf. lstrip s ''v'' = pre @ ''rc1'' @ suf)
                   then ''true'' else ''false'')]))"
proof (cases "length (str_split (lstrip s ''v'') (CHR ''.'')) = 3")
  case True
  then obtain major minor patch
    where parts: "str_split (lstrip s ''v'') (CHR ''.'') = [major, minor, patch]"
    by (auto simp: length3_conv)
  note rec = parse_version_three [OF parts, unfolded str_contains_iff]
  from rec have "\<exists>r. parse_version s = Inr r" by simp
  moreover from rec have "\<not> (\<exists>e. parse_version s = Inl e)" by simp
  moreover from rec have "parse_version s \<noteq> Inl (format_error s)" by simp
  moreover from parts rec
  have "\<exists>major minor patch.
         str_split (lstrip s ''v'') (CHR ''.'') = [major, minor, patch] \<and>
         parse_version s =
           Inr [(''version'', lstrip s ''v''),
                (''major_minor'', major @ ''.'' @ minor),
                (''release_branch'', ''v'' @ major @ ''.'' @ minor @ ''.x''),
                (''is_minor'',
                   if takeWhile (\<lambda>c. c \<noteq> CHR ''-'') patch = ''0'' then ''true'' else ''false''),
                (''is_first_rc'',
                   if takeWhile (\<lambda>c. c \<noteq> CHR ''-'') patch = ''0'' \<and>
                      (\<exists>pre suf. lstrip s ''v'' = pre @ ''rc1'' @ suf)
                   then ''true'' else ''false'')]"
    by blast
  ultimately show ?thesis using True by blast
next
  case False
  from parse_version_not_three [OF this] False show ?thesis by simp
qed

theorem parse_version_fails_iff_not_three_parts_witness:
  "parse_version ''1.2'' = Inl (format_error ''1.2'') \<and>
   parse_version ''v1.2.3.4'' = Inl (format_error ''v1.2.3.4'') \<and>
   length (str_split (lstrip ''2.5.3'' ''v'') (CHR ''.'')) = 3 \<and>
   parse_version ''2.5.3'' =
     Inr [(''version'', ''2.5.3''), (''major_minor'', ''2.5''),
          (''release_branch'', ''v2.5.x''), (''is_minor'', ''false''),
          (''is_first_rc'', ''false'')]"
proof -
  have a: "length (str_split (lstrip ''2.5.3'' ''v'') (CHR ''.'')) = 3"
    by (simp add: str_split_def)
  from parse_version_fails_iff_not_three_parts [of "''2.5.3''", THEN conjunct2, THEN conjunct2,
      THEN conjunct2, rule_format, OF a]
  have "parse_version ''2.5.3'' =
     Inr [(''version'', ''2.5.3''), (''major_minor'', ''2.5''),
          (''release_branch'', ''v2.5.x''), (''is_minor'', ''false''),
          (''is_first_rc'', ''false'')]"
    by (auto simp: str_split_def)
  with a parse_version_fails_iff_not_three_parts [of "''1.2''"]
    parse_version_fails_iff_not_three_parts [of "''v1.2.3.4''"]
  show ?thesis by (simp add: str_split_def)
qed

text \<open>
  C2. In every returned record \<open>is_first_rc\<close> is \<open>true\<close> or \<open>false\<close>, and it is \<open>true\<close>
  if and only if \<open>is_minor\<close> is \<open>true\<close> and the stripped version string contains
  \<open>rc1\<close> somewhere (it is \<open>pre @ rc1 @ suf\<close> for some \<open>pre\<close> and \<open>suf\<close>), not only at
  its end: \<open>v3.2.0-rc1-extra\<close> is parsed with \<open>is_first_rc = true\<close>.
\<close>

theorem is_first_rc_iff:
  "(\<forall>s r. parse_version s = Inr r \<longrightarrow>
      (map_of r ''is_first_rc'' = Some ''true'' \<or> map_of r ''is_first_rc'' = Some ''false'') \<and>
      ((map_of r ''is_first_rc'' = Some ''true'') =
         (map_of r ''is_minor'' = Some ''true'' \<and>
          (\<exists>pre suf. lstrip s ''v'' = pre @ ''rc1'' @ suf)))) \<and>
   (\<exists>r. parse_version ''v3.2.0-rc1-extra'' = Inr r \<and> map_of r ''is_first_rc'' = Some ''true'')"
proof (intro conjI allI impI)
  fix s r
  assume ok: "parse_version s = Inr r"
  then obtain major minor patch
    where parts: "str_split (lstrip s ''v'') (CHR ''.'') = [major, minor, patch]"
    by (rule parse_version_Inr_parts)
  from parse_version_three [OF parts] ok
  show "map_of r ''is_first_rc'' = Some ''true'' \<or> map_of r ''is_first_rc'' = Some ''false''"
    by auto
  from parse_version_three [OF parts] ok
  show "(map_of r ''is_first_rc'' = Some ''true'') =
         (map_of r ''is_minor'' = Some ''true'' \<and>
          (\<exists>pre suf. lstrip s ''v'' = pre @ ''rc1'' @ suf))"
    by (auto simp: str_contains_iff)
next
  have "str_split (lstrip ''v3.2.0-rc1-extra'' ''v'') (CHR ''.'') = [''3'', ''2'', ''0-rc1-extra'']"
    by (simp add: str_split_def)
  from parse_version_three [OF this]
  show "\<exists>r. parse_version ''v3.2.0-rc1-extra'' = Inr r \<and> map_of r ''is_first_rc'' = Some ''true''"
    by simp
qed

theorem is_first_rc_iff_witness:
  "parse_version ''v2.99.0-rc1'' =
     Inr [(''version'', ''2.99.0-rc1''), (''major_minor'', ''2.99''),
          (''release_branch'', ''v2.99.x''), (''is_minor'', ''true''),
          (''is_first_rc'', ''true'')] \<and>
   (\<exists>pre suf. lstrip ''v2.99.0-rc1'' ''v'' = pre @ ''rc1'' @ suf) \<and>
   parse_version ''v1.0.0'' =
     Inr [(''version'', ''1.0.0''), (''major_minor'', ''1.0''),
          (''release_branch'', ''v1.0.x''), (''is_minor'', ''true''),
          (''is_first_rc'', ''false'')] \<and>
   \<not> (\<exists>pre suf. lstrip ''v1.0.0'' ''v'' = pre @ ''rc1'' @ suf)"
proof -
  have a: "parse_version ''v2.99.0-rc1'' =
     Inr [(''version'', ''2.99.0-rc1''), (''major_minor'', ''2.99''),
          (''release_branch'', ''v2.99.x''), (''is_minor'', ''true''),
          (''is_first_rc'', ''true'')]"
    by code_simp
  have b: "parse_version ''v1.0.0'' =
     Inr [(''version'', ''1.0.0''), (''major_minor'', ''1.0''),
          (''release_branch'', ''v1.0.x''), (''is_minor'', ''true''),
          (''is_first_rc'', ''false'')]"
    by code_simp
  from is_first_rc_iff [THEN conjunct1, rule_format, OF a]
       is_first_rc_iff [THEN conjunct1, rule_format, OF b] a b
  show ?thesis by simp
qed

text \<open>
  C3. In every returned record \<open>is_minor\<close> is \<open>true\<close> or \<open>false\<close>, and it is \<open>true\<close> if
  and only if the third dot-separated component, cut at its first \<open>-\<close> (the whole
  component when it has none), is the text \<open>0\<close>. The comparison is on text: \<open>00\<close> is
  not \<open>0\<close>, and \<open>0-rc1\<close> is decided by the \<open>0\<close> before the dash.
\<close>

theorem is_minor_iff:
  "parse_version s = Inr r \<Longrightarrow>
     \<exists>major minor patch.
       str_split (lstrip s ''v'') (CHR ''.'') = [major, minor, patch] \<and>
       (map_of r ''is_minor'' = Some ''true'' \<or> map_of r ''is_minor'' = Some ''false'') \<and>
       ((map_of r ''is_minor'' = Some ''true'') =
          (takeWhile (\<lambda>c. c \<noteq> CHR ''-'') patch = ''0''))"
proof -
  assume ok: "parse_version s = Inr r"
  then obtain major minor patch
    where parts: "str_split (lstrip s ''v'') (CHR ''.'') = [major, minor, patch]"
    by (rule parse_version_Inr_parts)
  from parse_version_three [OF parts] ok
  have "(map_of r ''is_minor'' = Some ''true'' \<or> map_of r ''is_minor'' = Some ''false'') \<and>
        ((map_of r ''is_minor'' = Some ''true'') =
           (takeWhile (\<lambda>c. c \<noteq> CHR ''-'') patch = ''0''))"
    by auto
  with parts show ?thesis by blast
qed

theorem is_minor_iff_witness:
  "parse_version ''1.2.00'' =
     Inr [(''version'', ''1.2.00''), (''major_minor'', ''1.2''),
          (''release_branch'', ''v1.2.x''), (''is_minor'', ''false''),
          (''is_first_rc'', ''false'')] \<and>
   takeWhile (\<lambda>c. c \<noteq> CHR ''-'') ''00'' \<noteq> ''0'' \<and>
   parse_version ''v2.20.0-rc1'' =
     Inr [(''version'', ''2.20.0-rc1''), (''major_minor'', ''2.20''),
          (''release_branch'', ''v2.20.x''), (''is_minor'', ''true''),
          (''is_first_rc'', ''true'')] \<and>
   takeWhile (\<lambda>c. c \<noteq> CHR ''-'') ''0-rc1'' = ''0''"
proof -
  have a: "parse_version ''1.2.00'' =
     Inr [(''version'', ''1.2.00''), (''major_minor'', ''1.2''),
          (''release_branch'', ''v1.2.x''), (''is_minor'', ''false''),
          (''is_first_rc'', ''false'')]"
    by code_simp
  have b: "parse_version ''v2.20.0-rc1'' =
     Inr [(''version'', ''2.20.0-rc1''), (''major_minor'', ''2.20''),
          (''release_branch'', ''v2.20.x''), (''is_minor'', ''true''),
          (''is_first_rc'', ''true'')]"
    by code_simp
  from is_minor_iff [OF a] is_minor_iff [OF b] a b
  show ?thesis by (simp add: str_split_def)
qed

text \<open>
  C4. For every input, the stripped string is the input without its whole run of leading
  \<open>v\<close> characters: the input is some number of \<open>v\<close>s followed by the stripped string,
  which does not start with \<open>v\<close>. The \<open>version\<close> field of a returned record is that
  stripped string.
\<close>

theorem version_is_input_without_leading_v:
  "(\<exists>n. s = replicate n (CHR ''v'') @ lstrip s ''v'') \<and>
   take 1 (lstrip s ''v'') \<noteq> ''v'' \<and>
   (\<forall>r. parse_version s = Inr r \<longrightarrow> map_of r ''version'' = Some (lstrip s ''v''))"
proof (intro conjI allI impI)
  show "\<exists>n. s = replicate n (CHR ''v'') @ lstrip s ''v''"
    by (rule lstrip_v_replicate)
  show "take 1 (lstrip s ''v'') \<noteq> ''v''"
    by (rule lstrip_v_no_v)
next
  fix r
  assume ok: "parse_version s = Inr r"
  then obtain major minor patch
    where parts: "str_split (lstrip s ''v'') (CHR ''.'') = [major, minor, patch]"
    by (rule parse_version_Inr_parts)
  from parse_version_three [OF parts] ok
  show "map_of r ''version'' = Some (lstrip s ''v'')" by auto
qed

theorem version_is_input_without_leading_v_witness:
  "lstrip ''vvv1.2.3'' ''v'' = ''1.2.3'' \<and>
   ''vvv1.2.3'' = replicate 3 (CHR ''v'') @ ''1.2.3'' \<and>
   parse_version ''vvv1.2.3'' =
     Inr [(''version'', ''1.2.3''), (''major_minor'', ''1.2''),
          (''release_branch'', ''v1.2.x''), (''is_minor'', ''false''),
          (''is_first_rc'', ''false'')] \<and>
   map_of [(''version'', ''1.2.3''), (''major_minor'', ''1.2''),
          (''release_branch'', ''v1.2.x''), (''is_minor'', ''false''),
          (''is_first_rc'', ''false'')] ''version'' = Some ''1.2.3''"
proof -
  have a: "parse_version ''vvv1.2.3'' =
     Inr [(''version'', ''1.2.3''), (''major_minor'', ''1.2''),
          (''release_branch'', ''v1.2.x''), (''is_minor'', ''false''),
          (''is_first_rc'', ''false'')]"
    by code_simp
  have b: "replicate 3 (CHR ''v'') = ''vvv''"
    by code_simp
  from version_is_input_without_leading_v [of "''vvv1.2.3''", THEN conjunct2, THEN conjunct2,
      rule_format, OF a] a b
  show ?thesis by simp
qed

text \<open>
  C5. When the stripped input splits into \<open>major\<close>, \<open>minor\<close> and \<open>patch\<close> (so that it
  is \<open>major.minor.patch\<close>), \<open>release_branch\<close> is \<open>v\<close>, \<open>major\<close>, \<open>.\<close>, \<open>minor\<close>,
  \<open>.x\<close> joined and \<open>major_minor\<close> is \<open>major\<close>, \<open>.\<close>, \<open>minor\<close> joined, with the two
  components as they stand in the input: no conversion to numbers.
\<close>

theorem release_branch_and_major_minor:
  "parse_version s = Inr r \<Longrightarrow>
     \<exists>major minor patch.
       str_split (lstrip s ''v'') (CHR ''.'') = [major, minor, patch] \<and>
       lstrip s ''v'' = major @ ''.'' @ minor @ ''.'' @ patch \<and>
       map_of r ''release_branch'' = Some (''v'' @ major @ ''.'' @ minor @ ''.x'') \<and>
       map_of r ''major_minor'' = Some (major @ ''.'' @ minor)"
proof -
  assume ok: "parse_version s = Inr r"
  then obtain major minor patch
    where parts: "str_split (lstrip s ''v'') (CHR ''.'') = [major, minor, patch]"
    by (rule parse_version_Inr_parts)
  from parts have "lstrip s ''v'' = major @ ''.'' @ minor @ ''.'' @ patch"
    by (simp add: str_split_three_iff)
  moreover from parse_version_three [OF parts] ok
  have "map_of r ''release_branch'' = Some (''v'' @ major @ ''.'' @ minor @ ''.x'') \<and>
        map_of r ''major_minor'' = Some (major @ ''.'' @ minor)"
    by auto
  ultimately show ?thesis using parts by blast
qed

theorem release_branch_and_major_minor_witness:
  "parse_version ''v02.x7.3'' =
     Inr [(''version'', ''02.x7.3''), (''major_minor'', ''02.x7''),
          (''release_branch'', ''v02.x7.x''), (''is_minor'', ''false''),
          (''is_first_rc'', ''false'')] \<and>
   str_split (lstrip ''v02.x7.3'' ''v'') (CHR ''.'') = [''02'', ''x7'', ''3'']"
proof -
  have a: "parse_version ''v02.x7.3'' =
     Inr [(''version'', ''02.x7.3''), (''major_minor'', ''02.x7''),
          (''release_branch'', ''v02.x7.x''), (''is_minor'', ''false''),
          (''is_first_rc'', ''false'')]"
    by code_simp
  from release_branch_and_major_minor [OF a] a
  show ?thesis by (simp add: str_split_def)
qed

text \<open>
  C6. A run with one argument ends without an exception whenever the argument parses and
  standard output takes the five texts to print. In every such run the entry point makes
  one \<open>print\<close> call for each field of the record, in the order \<open>version\<close>,
  \<open>major_minor\<close>, \<open>release_branch\<close>, \<open>is_minor\<close>, \<open>is_first_rc\<close>: standard output is
  the five texts \<open>key=value\<close>, each followed by a newline, with the values as they are in
  the record and the two flags \<open>true\<close> or \<open>false\<close>. When the argument contains no
  newline, these are exactly the five lines of standard output.
\<close>

theorem main_prints_fields_in_order:
  "(\<forall>r. parse_version v = Inr r \<and>
        list_all encodable (map (\<lambda>(key, value). key @ ''='' @ value) r) \<longrightarrow>
        raised (main encodable [prog, v]) = None) \<and>
   (raised (main encodable [prog, v]) = None \<longrightarrow>
      (\<exists>version major_minor release_branch is_minor is_first_rc.
         parse_version v =
           Inr [(''version'', version), (''major_minor'', major_minor),
                (''release_branch'', release_branch), (''is_minor'', is_minor),
                (''is_first_rc'', is_first_rc)] \<and>
         (is_minor = ''true'' \<or> is_minor = ''false'') \<and>
         (is_first_rc = ''true'' \<or> is_first_rc = ''false'') \<and>
         stdout (main encodable [prog, v]) =
           ''version='' @ version @ [CHR 0x0A] @
           ''major_minor='' @ major_minor @ [CHR 0x0A] @
           ''release_branch='' @ release_branch @ [CHR 0x0A] @
           ''is_minor='' @ is_minor @ [CHR 0x0A] @
           ''is_first_rc='' @ is_first_rc @ [CHR 0x0A] \<and>
         (CHR 0x0A \<notin> set v \<longrightarrow>
            stdout_lines (stdout (main encodable [prog, v])) =
              [''version='' @ version, ''major_minor='' @ major_minor,
               ''release_branch='' @ release_branch, ''is_minor='' @ is_minor,
               ''is_first_rc='' @ is_first_rc])))"
proof (intro conjI allI impI)
  fix r
  assume h: "parse_version v = Inr r \<and>
             list_all encodable (map (\<lambda>(key, value). key @ ''='' @ value) r)"
  then obtain major minor patch
    where parts: "str_split (lstrip v ''v'') (CHR ''.'') = [major, minor, patch]"
    by (blast elim: parse_version_Inr_parts)
  from parse_version_three [OF parts] h
  show "raised (main encodable [prog, v]) = None"
    by (auto simp: main_def getitem_def print_line_def)
next
  assume ok: "raised (main encodable [prog, v]) = None"
  then obtain r where r: "parse_version v = Inr r"
    by (cases "parse_version v") (simp_all add: main_def getitem_def)
  then obtain major minor patch
    where parts: "str_split (lstrip v ''v'') (CHR ''.'') = [major, minor, patch]"
    by (rule parse_version_Inr_parts)
  define version where "version = lstrip v ''v''"
  define major_minor where "major_minor = major @ ''.'' @ minor"
  define release_branch where "release_branch = ''v'' @ major @ ''.'' @ minor @ ''.x''"
  define is_minor where
    "is_minor = (if takeWhile (\<lambda>c. c \<noteq> CHR ''-'') patch = ''0'' then ''true'' else ''false'')"
  define is_first_rc where
    "is_first_rc = (if takeWhile (\<lambda>c. c \<noteq> CHR ''-'') patch = ''0'' \<and>
                       str_contains (lstrip v ''v'') ''rc1'' then ''true'' else ''false'')"
  from parse_version_three [OF parts]
  have p: "parse_version v =
             Inr [(''version'', version), (''major_minor'', major_minor),
                  (''release_branch'', release_branch), (''is_minor'', is_minor),
                  (''is_first_rc'', is_first_rc)]"
    by (simp add: version_def major_minor_def release_branch_def is_minor_def is_first_rc_def)
  have flags: "(is_minor = ''true'' \<or> is_minor = ''false'') \<and>
               (is_first_rc = ''true'' \<or> is_first_rc = ''false'')"
    by (simp add: is_minor_def is_first_rc_def)
  from ok have out: "stdout (main encodable [prog, v]) =
           ''version='' @ version @ [CHR 0x0A] @
           ''major_minor='' @ major_minor @ [CHR 0x0A] @
           ''release_branch='' @ release_branch @ [CHR 0x0A] @
           ''is_minor='' @ is_minor @ [CHR 0x0A] @
           ''is_first_rc='' @ is_first_rc @ [CHR 0x0A]"
    by (simp add: main_def getitem_def p print_line_def split: if_splits)
  have lines: "stdout_lines (stdout (main encodable [prog, v])) =
              [''version='' @ version, ''major_minor='' @ major_minor,
               ''release_branch='' @ release_branch, ''is_minor='' @ is_minor,
               ''is_first_rc='' @ is_first_rc]" if nl: "CHR 0x0A \<notin> set v"
  proof -
    from nl set_lstrip [of v "''v''"] have 1: "CHR 0x0A \<notin> set version"
      by (auto simp: version_def)
    from parts have "version = major @ CHR ''.'' # minor @ CHR ''.'' # patch"
      by (simp add: str_split_three_iff version_def)
    with 1 have 2: "CHR 0x0A \<notin> set major" "CHR 0x0A \<notin> set minor"
      by auto
    from flags have 3: "CHR 0x0A \<notin> set is_minor" "CHR 0x0A \<notin> set is_first_rc"
      by auto
    have "stdout_lines ((''version='' @ version) @ CHR 0x0A #
            (''major_minor='' @ major_minor) @ CHR 0x0A #
            (''release_branch='' @ release_branch) @ CHR 0x0A #
            (''is_minor='' @ is_minor) @ CHR 0x0A #
            (''is_first_rc='' @ is_first_rc) @ [CHR 0x0A]) =
          [''version='' @ version, ''major_minor='' @ major_minor,
           ''release_branch='' @ release_branch, ''is_minor='' @ is_minor,
           ''is_first_rc='' @ is_first_rc]"
      using 1 2 3
      by (intro stdout_lines_five) (simp_all add: major_minor_def release_branch_def)
    then show ?thesis by (simp add: out)
  qed
  from p flags out lines
  show "\<exists>version major_minor release_branch is_minor is_first_rc.
         parse_version v =
           Inr [(''version'', version), (''major_minor'', major_minor),
                (''release_branch'', release_branch), (''is_minor'', is_minor),
                (''is_first_rc'', is_first_rc)] \<and>
         (is_minor = ''true'' \<or> is_minor = ''false'') \<and>
         (is_first_rc = ''true'' \<or> is_first_rc = ''false'') \<and>
         stdout (main encodable [prog, v]) =
           ''version='' @ version @ [CHR 0x0A] @
           ''major_minor='' @ major_minor @ [CHR 0x0A] @
           ''release_branch='' @ release_branch @ [CHR 0x0A] @
           ''is_minor='' @ is_minor @ [CHR 0x0A] @
           ''is_first_rc='' @ is_first_rc @ [CHR 0x0A] \<and>
         (CHR 0x0A \<notin> set v \<longrightarrow>
            stdout_lines (stdout (main encodable [prog, v])) =
              [''version='' @ version, ''major_minor='' @ major_minor,
               ''release_branch='' @ release_branch, ''is_minor='' @ is_minor,
               ''is_first_rc='' @ is_first_rc])"
    by blast
qed

theorem main_prints_fields_in_order_witness:
  "raised (main ascii_only [''parse_version.py'', ''v2.99.0-rc1'']) = None \<and>
   stdout (main ascii_only [''parse_version.py'', ''v2.99.0-rc1'']) =
     ''version=2.99.0-rc1'' @ [CHR 0x0A] @ ''major_minor=2.99'' @ [CHR 0x0A] @
     ''release_branch=v2.99.x'' @ [CHR 0x0A] @ ''is_minor=true'' @ [CHR 0x0A] @
     ''is_first_rc=true'' @ [CHR 0x0A] \<and>
   stdout_lines (stdout (main ascii_only [''parse_version.py'', ''v2.99.0-rc1''])) =
     [''version=2.99.0-rc1'', ''major_minor=2.99'', ''release_branch=v2.99.x'',
      ''is_minor=true'', ''is_first_rc=true'']"
proof -
  have a: "parse_version ''v2.99.0-rc1'' =
     Inr [(''version'', ''2.99.0-rc1''), (''major_minor'', ''2.99''),
          (''release_branch'', ''v2.99.x''), (''is_minor'', ''true''),
          (''is_first_rc'', ''true'')]"
    by code_simp
  have b: "list_all ascii_only (map (\<lambda>(key, value). key @ ''='' @ value)
     [(''version'', ''2.99.0-rc1''), (''major_minor'', ''2.99''),
      (''release_branch'', ''v2.99.x''), (''is_minor'', ''true''),
      (''is_first_rc'', ''true'')])"
    by code_simp
  have c: "CHR 0x0A \<notin> set ''v2.99.0-rc1''"
    by simp
  from main_prints_fields_in_order [of "''v2.99.0-rc1''" ascii_only "''parse_version.py''",
      THEN conjunct1, rule_format, OF conjI [OF a b]]
  have ok: "raised (main ascii_only [''parse_version.py'', ''v2.99.0-rc1'']) = None" .
  from main_prints_fields_in_order [of "''v2.99.0-rc1''" ascii_only "''parse_version.py''",
      THEN conjunct2, rule_format, OF ok] a c ok
  show ?thesis by auto
qed

text \<open>
  An argument with a newline in it parses, and its run prints six lines for the five
  fields: the text after the newline is a line of its own, here one that reads as a
  second \<open>is_minor\<close> entry.
\<close>

theorem main_one_line_per_field_counterexample:
  "parse_version ''1.2.3\<newline>is_minor=true'' =
     Inr [(''version'', ''1.2.3\<newline>is_minor=true''), (''major_minor'', ''1.2''),
          (''release_branch'', ''v1.2.x''), (''is_minor'', ''false''),
          (''is_first_rc'', ''false'')] \<and>
   raised (main ascii_only [''parse_version.py'', ''1.2.3\<newline>is_minor=true'']) = None \<and>
   stdout_lines (stdout (main ascii_only [''parse_version.py'', ''1.2.3\<newline>is_minor=true''])) =
     [''version=1.2.3'', ''is_minor=true'', ''major_minor=1.2'', ''release_branch=v1.2.x'',
      ''is_minor=false'', ''is_first_rc=false'']"
  by code_simp

text \<open>
  C7. The format error is the only way \<open>parse_version\<close> fails: every error it returns is
  that error, for an input without three components. For an input with three components
  the unpacking into three names succeeds, indexing the first element of the dash-split of
  the patch succeeds, and a record is returned, whatever the text of the components.
\<close>

theorem parse_version_no_other_failure:
  "(\<forall>e. parse_version s = Inl e \<longrightarrow>
      e = format_error s \<and> length (str_split (lstrip s ''v'') (CHR ''.'')) \<noteq> 3) \<and>
   (length (str_split (lstrip s ''v'') (CHR ''.'')) = 3 \<longrightarrow>
      (\<exists>major minor patch0 patch r.
         unpack3 (str_split (lstrip s ''v'') (CHR ''.'')) = Inr (major, minor, patch0) \<and>
         getitem (str_split patch0 (CHR ''-'')) 0 = Inr patch \<and>
         parse_version s = Inr r))"
proof (cases "length (str_split (lstrip s ''v'') (CHR ''.'')) = 3")
  case True
  then obtain major minor patch0
    where parts: "str_split (lstrip s ''v'') (CHR ''.'') = [major, minor, patch0]"
    by (auto simp: length3_conv)
  have "unpack3 (str_split (lstrip s ''v'') (CHR ''.'')) = Inr (major, minor, patch0)"
    by (simp add: parts unpack3_def)
  moreover have "getitem (str_split patch0 (CHR ''-'')) 0 =
                   Inr (takeWhile (\<lambda>c. c \<noteq> CHR ''-'') patch0)"
    by (rule getitem_split0)
  moreover from parse_version_three [OF parts] have "\<exists>r. parse_version s = Inr r"
    by simp
  ultimately show ?thesis using True by auto
next
  case False
  from parse_version_not_three [OF this] False show ?thesis by simp
qed

theorem parse_version_no_other_failure_witness:
  "length (str_split (lstrip ''vfoo.bar.baz-1'' ''v'') (CHR ''.'')) = 3 \<and>
   (\<exists>r. parse_version ''vfoo.bar.baz-1'' = Inr r) \<and>
   parse_version ''2.99'' = Inl (format_error ''2.99'') \<and>
   length (str_split (lstrip ''2.99'' ''v'') (CHR ''.'')) \<noteq> 3"
proof -
  have a: "length (str_split (lstrip ''vfoo.bar.baz-1'' ''v'') (CHR ''.'')) = 3"
    by (simp add: str_split_def)
  have b: "parse_version ''2.99'' = Inl (format_error ''2.99'')"
    by (simp add: parse_version_def str_split_def)
  from parse_version_no_other_failure [of "''vfoo.bar.baz-1''", THEN conjunct2, rule_format, OF a]
       parse_version_no_other_failure [of "''2.99''", THEN conjunct1, rule_format, OF b] a b
  show ?thesis by blast
qed

text \<open>
  C8. Stripping the leading \<open>v\<close> characters of a string that has already been stripped
  changes nothing: \<open>strip (strip s) = strip s\<close> for every string.
\<close>

theorem lstrip_v_idempotent: "lstrip (lstrip s ''v'') ''v'' = lstrip s ''v''"
  by (induction s) simp_all

theorem lstrip_v_idempotent_witness:
  "lstrip ''vv1.0.0'' ''v'' = ''1.0.0'' \<and> lstrip ''1.0.0'' ''v'' = ''1.0.0''"
  using lstrip_v_idempotent [of "''vv1.0.0''"] by simp

text \<open>
  C9. In every returned record, \<open>is_first_rc = true\<close> implies \<open>is_minor = true\<close>.
\<close>

theorem first_rc_implies_minor:
  "parse_version s = Inr r \<Longrightarrow> map_of r ''is_first_rc'' = Some ''true'' \<Longrightarrow>
     map_of r ''is_minor'' = Some ''true''"
proof -
  assume ok: "parse_version s = Inr r" and rc: "map_of r ''is_first_rc'' = Some ''true''"
  from ok obtain major minor patch
    where parts: "str_split (lstrip s ''v'') (CHR ''.'') = [major, minor, patch]"
    by (rule parse_version_Inr_parts)
  from parse_version_three [OF parts] ok rc show ?thesis
    by (auto split: if_splits)
qed

theorem first_rc_implies_minor_witness:
  "parse_version ''v3.2.0-rc1-extra'' =
     Inr [(''version'', ''3.2.0-rc1-extra''), (''major_minor'', ''3.2''),
          (''release_branch'', ''v3.2.x''), (''is_minor'', ''true''),
          (''is_first_rc'', ''true'')] \<and>
   map_of [(''version'', ''3.2.0-rc1-extra''), (''major_minor'', ''3.2''),
          (''release_branch'', ''v3.2.x''), (''is_minor'', ''true''),
          (''is_first_rc'', ''true'')] ''is_first_rc'' = Some ''true'' \<and>
   map_of [(''version'', ''3.2.0-rc1-extra''), (''major_minor'', ''3.2''),
          (''release_branch'', ''v3.2.x''), (''is_minor'', ''true''),
          (''is_first_rc'', ''true'')] ''is_minor'' = Some ''true''"
proof -
  have a: "parse_version ''v3.2.0-rc1-extra'' =
     Inr [(''version'', ''3.2.0-rc1-extra''), (''major_minor'', ''3.2''),
          (''release_branch'', ''v3.2.x''), (''is_minor'', ''true''),
          (''is_first_rc'', ''true'')]"
    by code_simp
  have b: "map_of [(''version'', ''3.2.0-rc1-extra''), (''major_minor'', ''3.2''),
          (''release_branch'', ''v3.2.x''), (''is_minor'', ''true''),
          (''is_first_rc'', ''true'')] ''is_first_rc'' = Some ''true''"
    by simp
  from first_rc_implies_minor [OF a b] a b show ?thesis by blast
qed

text \<open>
  C10. In every returned record the \<open>version\<close> field does not begin with \<open>v\<close> (it is
  empty or starts with another character) and the \<open>release_branch\<close> field begins with
  \<open>v\<close>.
\<close>

theorem version_and_release_branch_first_char:
  "parse_version s = Inr r \<Longrightarrow>
     \<exists>version release_branch.
       map_of r ''version'' = Some version \<and> take 1 version \<noteq> ''v'' \<and>
       map_of r ''release_branch'' = Some release_branch \<and> take 1 release_branch = ''v''"
proof -
  assume ok: "parse_version s = Inr r"
  then obtain major minor patch
    where parts: "str_split (lstrip s ''v'') (CHR ''.'') = [major, minor, patch]"
    by (rule parse_version_Inr_parts)
  from parse_version_three [OF parts] ok lstrip_v_no_v [of s] show ?thesis
    by auto
qed

theorem version_and_release_branch_first_char_witness:
  "parse_version ''vv2.5.3'' =
     Inr [(''version'', ''2.5.3''), (''major_minor'', ''2.5''),
          (''release_branch'', ''v2.5.x''), (''is_minor'', ''false''),
          (''is_first_rc'', ''false'')] \<and>
   take 1 ''2.5.3'' \<noteq> ''v'' \<and> take 1 ''v2.5.x'' = ''v''"
proof -
  have a: "parse_version ''vv2.5.3'' =
     Inr [(''version'', ''2.5.3''), (''major_minor'', ''2.5''),
          (''release_branch'', ''v2.5.x''), (''is_minor'', ''false''),
          (''is_first_rc'', ''false'')]"
    by code_simp
  from version_and_release_branch_first_char [OF a] a show ?thesis by simp
qed

end
